theory Spec2Isabelle
  imports Main "HOL-Library.Signed_Division"
begin

section \<open>The vsync predictor of SurfaceFlinger (Scheduler/VSyncPredictor.cpp)\<close>

text \<open>
  The development embeds \<^verbatim>\<open>VSyncPredictor.cpp\<close> function by function.

  \<^item> \<^verbatim>\<open>nsecs_t\<close> (a signed 64-bit integer) is \<open>int\<close>. Signed overflow is undefined
    behaviour in C++, so the embedding describes the executions in which no intermediate
    value leaves the 64-bit range; \<open>/\<close> and \<open>%\<close> on \<^verbatim>\<open>nsecs_t\<close> truncate towards zero
    and are \<open>sdiv\<close> and \<open>smod\<close>.
  \<^item> Every operation whose behaviour C++ leaves undefined for some state (division by
    zero, an index outside the vector, the extremum of an empty range, dereferencing the
    iterator returned by a failed \<^verbatim>\<open>find\<close>) and the \<^verbatim>\<open>LOG_ALWAYS_FATAL_IF\<close> abort return
    a \<open>fault\<close>.
  \<^item> The mutex, the trace counters and the log lines do not influence any value and are
    left out.
\<close>

subsection \<open>Data\<close>

datatype fault =
    DivisionByZero
  | IndexOutOfBounds
  | EmptyRange
  | NoRateMapEntry
  | ModelMiscalculation

record Model =
  slope :: int
  intercept :: int

record VsyncSequence =
  vsyncTime :: int
  seq :: int

text \<open>
  The rate map \<^verbatim>\<open>mRateMap\<close>, from ideal periods to models, is an association list with
  unique keys.
\<close>

type_synonym RateMap = "(int \<times> Model) list"

text \<open>\<^verbatim>\<open>mRateMap.find(k)\<close>; \<open>None\<close> stands for \<^verbatim>\<open>mRateMap.end()\<close>.\<close>

definition rm_find :: "RateMap \<Rightarrow> int \<Rightarrow> Model option" where
  "rm_find m k = map_of m k"

text \<open>
  Modelled from the spec: the declaration of \<^verbatim>\<open>mRateMap\<close> is in \<^verbatim>\<open>VSyncPredictor.h\<close>,
  which is not among the sources, so the order in which the container keeps its entries
  is the one of the specification (``eviction removes the insertion-oldest entry''): the
  list is in insertion order. \<^verbatim>\<open>mRateMap[k] = v\<close> and \<^verbatim>\<open>it->second = v\<close> replace the
  value of an existing key where it stands and enter a new key last.
\<close>

fun rm_assign :: "RateMap \<Rightarrow> int \<Rightarrow> Model \<Rightarrow> RateMap" where
  "rm_assign [] k v = [(k, v)]"
| "rm_assign ((k', v') # m) k v =
     (if k' = k then (k, v) # m else (k', v') # rm_assign m k v)"

text \<open>
  Modelled from the spec: the container type of \<^verbatim>\<open>mRateMap\<close> (declared in
  \<^verbatim>\<open>VSyncPredictor.h\<close>, not among the sources) decides which entry \<^verbatim>\<open>mRateMap.begin()\<close>
  is; following the specification it is the entry inserted first, the head of the list.
  \<^verbatim>\<open>mRateMap.erase(mRateMap.begin())\<close> is only ever called on a map of 30 entries.
\<close>

definition rm_erase_begin :: "RateMap \<Rightarrow> RateMap" where
  "rm_erase_begin m = tl m"

text \<open>
  The fields of the class. Their declarations are in the header as well; the types are
  the ones the code of the source file requires: sizes are \<^verbatim>\<open>size_t\<close>, the tolerance is
  an unsigned percentage, \<^verbatim>\<open>mLastTimestampIndex\<close> is a signed index (the code tests it
  against 0). The frame-rate type \<^verbatim>\<open>Fps\<close> belongs to an external component and is a type
  parameter.
\<close>

record 'fps VSyncPredictor =
  kHistorySize :: nat
  kMinimumSamplesForPrediction :: nat
  kOutlierTolerancePercent :: nat
  mIdealPeriod :: int
  mKnownTimestamp :: "int option"
  mRateMap :: RateMap
  mLastTimestampIndex :: int
  mTimestamps :: "int list"
  mLastVsyncSequence :: "VsyncSequence option"
  mRenderRate :: "'fps option"

definition kMaxPercent :: nat where
  "kMaxPercent = 100"

definition kSizeLimit :: nat where
  "kSizeLimit = 30"

definition kScalingFactor :: int where
  "kScalingFactor = 1000"

definition trivialModel :: "int \<Rightarrow> Model" where
  "trivialModel period = \<lparr>slope = period, intercept = 0\<rparr>"

subsection \<open>Helpers of the standard library\<close>

text \<open>
  \<^verbatim>\<open>std::max_element\<close> and \<^verbatim>\<open>std::min_element\<close> on a non-empty range, given as its first
  element and the rest: the scan keeps the first of several equal extrema.
\<close>

definition max_element :: "int \<Rightarrow> int list \<Rightarrow> int" where
  "max_element first rest = fold (\<lambda>a largest. if largest < a then a else largest) rest first"

definition min_element_by :: "(int \<Rightarrow> int \<Rightarrow> bool) \<Rightarrow> int \<Rightarrow> int list \<Rightarrow> int" where
  "min_element_by lt first rest =
     fold (\<lambda>a smallest. if lt a smallest then a else smallest) rest first"

definition min_element :: "int \<Rightarrow> int list \<Rightarrow> int" where
  "min_element first rest = min_element_by (\<lambda>a b. a < b) first rest"

text \<open>
  Conversions between \<^verbatim>\<open>int64_t\<close> and \<^verbatim>\<open>size_t\<close>, and the division
  \<^verbatim>\<open>x /= numSamples\<close> of a signed by an unsigned 64-bit value, which C++ carries out on
  the unsigned representation.
\<close>

definition to_u64 :: "int \<Rightarrow> int" where
  "to_u64 x = x mod 2 ^ 64"

definition to_s64 :: "int \<Rightarrow> int" where
  "to_s64 x = (let y = x mod 2 ^ 64 in if y < 2 ^ 63 then y else y - 2 ^ 64)"

definition div_size_t :: "int \<Rightarrow> nat \<Rightarrow> int" where
  "div_size_t x n = to_s64 (to_u64 x div int n)"

text \<open>The difference of two \<^verbatim>\<open>unsigned\<close> (32-bit) values wraps around.\<close>

definition sub_u32 :: "nat \<Rightarrow> nat \<Rightarrow> int" where
  "sub_u32 a b = (int a - int b) mod 2 ^ 32"

subsection \<open>clearTimestamps, resetModel, the constructor, setPeriod\<close>

definition clearTimestamps :: "'fps VSyncPredictor \<Rightarrow> 'fps VSyncPredictor" where
  "clearTimestamps s =
     (case mTimestamps s of
        [] \<Rightarrow> s
      | t # ts \<Rightarrow>
          (let maxRb = max_element t ts in
           s\<lparr>mKnownTimestamp :=
                (case mKnownTimestamp s of
                   Some known \<Rightarrow> Some (max known maxRb)
                 | None \<Rightarrow> Some maxRb),
             mTimestamps := [],
             mLastTimestampIndex := 0\<rparr>))"

definition resetModel :: "'fps VSyncPredictor \<Rightarrow> 'fps VSyncPredictor" where
  "resetModel s =
     clearTimestamps
       (s\<lparr>mRateMap := rm_assign (mRateMap s) (mIdealPeriod s) (trivialModel (mIdealPeriod s))\<rparr>)"

definition construct :: "int \<Rightarrow> nat \<Rightarrow> nat \<Rightarrow> nat \<Rightarrow> 'fps VSyncPredictor" where
  "construct idealPeriod historySize minimumSamplesForPrediction outlierTolerancePercent =
     resetModel
       \<lparr>kHistorySize = historySize,
        kMinimumSamplesForPrediction = minimumSamplesForPrediction,
        kOutlierTolerancePercent = min outlierTolerancePercent kMaxPercent,
        mIdealPeriod = idealPeriod,
        mKnownTimestamp = None,
        mRateMap = [],
        mLastTimestampIndex = 0,
        mTimestamps = [],
        mLastVsyncSequence = None,
        mRenderRate = None\<rparr>"

definition setPeriod :: "'fps VSyncPredictor \<Rightarrow> int \<Rightarrow> 'fps VSyncPredictor" where
  "setPeriod s period =
     (let m1 = (if length (mRateMap s) = kSizeLimit then rm_erase_begin (mRateMap s)
                else mRateMap s);
          m2 = (if rm_find m1 period = None then rm_assign m1 period (trivialModel period)
                else m1)
      in clearTimestamps (s\<lparr>mRateMap := m2, mIdealPeriod := period\<rparr>))"

subsection \<open>validate\<close>

text \<open>
  The two percentages of \<^verbatim>\<open>validate\<close>: the residual of the distance to the last written
  timestamp, and the distance to the nearest buffered timestamp, both in percent of the
  ideal period.
\<close>

definition residualPercent :: "int \<Rightarrow> int \<Rightarrow> int \<Rightarrow> int" where
  "residualPercent idealPeriod aValidTimestamp timestamp =
     (timestamp - aValidTimestamp) smod idealPeriod * int kMaxPercent sdiv idealPeriod"

definition distancePercent :: "int \<Rightarrow> int \<Rightarrow> int list \<Rightarrow> int \<Rightarrow> int" where
  "distancePercent idealPeriod first rest timestamp =
     (let iter = min_element_by (\<lambda>a b. \<bar>timestamp - a\<bar> < \<bar>timestamp - b\<bar>) first rest
      in \<bar>iter - timestamp\<bar> * int kMaxPercent sdiv idealPeriod)"

definition validate :: "'fps VSyncPredictor \<Rightarrow> int \<Rightarrow> fault + bool" where
  "validate s timestamp =
     (case mTimestamps s of
        [] \<Rightarrow> Inr True
      | t # ts \<Rightarrow>
          if mLastTimestampIndex s < 0 then Inr True
          else if \<not> nat (mLastTimestampIndex s) < length (t # ts) then Inl IndexOutOfBounds
          else if mIdealPeriod s = 0 then Inl DivisionByZero
          else
            (let aValidTimestamp = (t # ts) ! nat (mLastTimestampIndex s);
                 percent = residualPercent (mIdealPeriod s) aValidTimestamp timestamp
             in if int (kOutlierTolerancePercent s) \<le> percent \<and>
                   percent \<le> sub_u32 kMaxPercent (kOutlierTolerancePercent s)
                then Inr False
                else if distancePercent (mIdealPeriod s) t ts timestamp
                          < int (kOutlierTolerancePercent s)
                then Inr False
                else Inr True))"

subsection \<open>addVsyncTimestamp\<close>

text \<open>
  \<^verbatim>\<open>next(i)\<close> is \<^verbatim>\<open>(i + 1) % mTimestamps.size()\<close> in \<^verbatim>\<open>size_t\<close> arithmetic; the signed
  index is converted on the way in.
\<close>

definition next_index :: "int list \<Rightarrow> int \<Rightarrow> fault + int" where
  "next_index timestamps i =
     (if timestamps = [] then Inl DivisionByZero
      else Inr (to_u64 (to_u64 i + 1) mod int (length timestamps)))"

text \<open>The insertion of a validated timestamp into the ring (lines 125 to 131).\<close>

definition insertTimestamp :: "'fps VSyncPredictor \<Rightarrow> int \<Rightarrow> fault + 'fps VSyncPredictor" where
  "insertTimestamp s timestamp =
     (if length (mTimestamps s) \<noteq> kHistorySize s then
        (let pushed = mTimestamps s @ [timestamp] in
         case next_index pushed (mLastTimestampIndex s) of
           Inl e \<Rightarrow> Inl e
         | Inr i \<Rightarrow> Inr (s\<lparr>mTimestamps := pushed, mLastTimestampIndex := i\<rparr>))
      else
        (case next_index (mTimestamps s) (mLastTimestampIndex s) of
           Inl e \<Rightarrow> Inl e
         | Inr i \<Rightarrow>
             Inr (s\<lparr>mLastTimestampIndex := i,
                    mTimestamps := (mTimestamps s)[nat i := timestamp]\<rparr>)))"

text \<open>
  The linear regression (lines 156 to 196). \<open>fitOrdinal\<close> is the snapped ordinal of a
  normalised timestamp; \<open>regression\<close> returns the means and the two sums
  \<^verbatim>\<open>(meanTS, meanOrdinal, top, bottom)\<close> (here \<open>sumTop\<close> and \<open>sumBottom\<close>).
\<close>

definition fitOrdinal :: "int \<Rightarrow> int \<Rightarrow> int" where
  "fitOrdinal currentPeriod ts =
     (if currentPeriod = 0 then 0
      else (ts + currentPeriod sdiv 2) sdiv currentPeriod * kScalingFactor)"

definition regression :: "int \<Rightarrow> int \<Rightarrow> int list \<Rightarrow> int \<times> int \<times> int \<times> int" where
  "regression currentPeriod oldestTS timestamps =
     (let numSamples = length timestamps;
          vsyncTS = map (\<lambda>t. t - oldestTS) timestamps;
          ordinals = map (fitOrdinal currentPeriod) vsyncTS;
          meanTS = div_size_t (sum_list vsyncTS) numSamples;
          meanOrdinal = div_size_t (sum_list ordinals) numSamples;
          vsyncTS' = map (\<lambda>t. t - meanTS) vsyncTS;
          ordinals' = map (\<lambda>x. x - meanOrdinal) ordinals;
          sumTop = sum_list (map (\<lambda>(t, x). t * x) (zip vsyncTS' ordinals'));
          sumBottom = sum_list (map (\<lambda>x. x * x) ordinals')
      in (meanTS, meanOrdinal, sumTop, sumBottom))"

text \<open>The rejection of a fit: \<^verbatim>\<open>it->second = {mIdealPeriod, 0}; clearTimestamps();\<close>\<close>

definition rejectFit :: "'fps VSyncPredictor \<Rightarrow> 'fps VSyncPredictor" where
  "rejectFit s =
     clearTimestamps
       (s\<lparr>mRateMap := rm_assign (mRateMap s) (mIdealPeriod s) (trivialModel (mIdealPeriod s))\<rparr>)"

definition fitModel :: "'fps VSyncPredictor \<Rightarrow> fault + bool \<times> 'fps VSyncPredictor" where
  "fitModel s =
     (case mTimestamps s of
        [] \<Rightarrow> Inl EmptyRange
      | t # ts \<Rightarrow>
          (let oldestTS = min_element t ts in
           case rm_find (mRateMap s) (mIdealPeriod s) of
             None \<Rightarrow> Inl NoRateMapEntry
           | Some model \<Rightarrow>
               (case regression (slope model) oldestTS (t # ts) of
                  (meanTS, meanOrdinal, sumTop, sumBottom) \<Rightarrow>
                    if sumBottom = 0 then Inr (False, rejectFit s)
                    else
                      (let anticipatedPeriod = sumTop * kScalingFactor sdiv sumBottom;
                           intercept = meanTS - anticipatedPeriod * meanOrdinal sdiv kScalingFactor
                       in if mIdealPeriod s = 0 then Inl DivisionByZero
                          else
                            (let percent = \<bar>anticipatedPeriod - mIdealPeriod s\<bar> * int kMaxPercent
                                             sdiv mIdealPeriod s
                             in if int (kOutlierTolerancePercent s) \<le> percent
                                then Inr (False, rejectFit s)
                                else Inr (True,
                                       s\<lparr>mRateMap :=
                                            rm_assign (mRateMap s) (mIdealPeriod s)
                                              \<lparr>slope = anticipatedPeriod,
                                               intercept = intercept\<rparr>\<rparr>))))))"

definition addVsyncTimestamp ::
  "'fps VSyncPredictor \<Rightarrow> int \<Rightarrow> fault + bool \<times> 'fps VSyncPredictor" where
  "addVsyncTimestamp s timestamp =
     (case validate s timestamp of
        Inl e \<Rightarrow> Inl e
      | Inr False \<Rightarrow>
          if length (mTimestamps s) < kMinimumSamplesForPrediction s then
            Inr (False, clearTimestamps (s\<lparr>mTimestamps := mTimestamps s @ [timestamp]\<rparr>))
          else
            (case mTimestamps s of
               t # ts \<Rightarrow> Inr (False, s\<lparr>mKnownTimestamp := Some (max timestamp (max_element t ts))\<rparr>)
             | [] \<Rightarrow> Inr (False, s\<lparr>mKnownTimestamp := Some timestamp\<rparr>))
      | Inr True \<Rightarrow>
          (case insertTimestamp s timestamp of
             Inl e \<Rightarrow> Inl e
           | Inr s1 \<Rightarrow>
               if length (mTimestamps s1) < kMinimumSamplesForPrediction s1 then
                 Inr (True,
                   s1\<lparr>mRateMap :=
                        rm_assign (mRateMap s1) (mIdealPeriod s1) (trivialModel (mIdealPeriod s1))\<rparr>)
               else fitModel s1))"

subsection \<open>The predictor\<close>

definition getVSyncPredictionModelLocked :: "'fps VSyncPredictor \<Rightarrow> fault + Model" where
  "getVSyncPredictionModelLocked s =
     (case rm_find (mRateMap s) (mIdealPeriod s) of
        None \<Rightarrow> Inl NoRateMapEntry
      | Some model \<Rightarrow> Inr model)"

definition nextAnticipatedVSyncTimeFromLocked :: "'fps VSyncPredictor \<Rightarrow> int \<Rightarrow> fault + int" where
  "nextAnticipatedVSyncTimeFromLocked s timePoint =
     (case getVSyncPredictionModelLocked s of
        Inl e \<Rightarrow> Inl e
      | Inr model \<Rightarrow>
          (case mTimestamps s of
             [] \<Rightarrow>
               if mIdealPeriod s = 0 then Inl DivisionByZero
               else
                 (let knownTimestamp =
                        (case mKnownTimestamp s of Some known \<Rightarrow> known | None \<Rightarrow> timePoint);
                      numPeriodsOut = (timePoint - knownTimestamp) sdiv mIdealPeriod s + 1
                  in Inr (knownTimestamp + numPeriodsOut * mIdealPeriod s))
           | t # ts \<Rightarrow>
               if slope model = 0 then Inl DivisionByZero
               else
                 (let oldest = min_element t ts;
                      zeroPoint = oldest + intercept model;
                      ordinalRequest = (timePoint - zeroPoint + slope model) sdiv slope model;
                      prediction = ordinalRequest * slope model + intercept model + oldest
                  in if prediction < timePoint then Inl ModelMiscalculation
                     else Inr prediction)))"

subsection \<open>Sequence numbers, render-rate phase and the remaining public operations\<close>

text \<open>
  Two computations are outside the translation and are parameters of the model: the
  single-precision quotient \<^verbatim>\<open>std::round((vsync - lastVsyncTime) / static_cast<float>(slope))\<close>
  converted to \<^verbatim>\<open>int64_t\<close>, and the divisor
  \<^verbatim>\<open>RefreshRateSelector::getFrameRateDivisor(Fps::fromPeriodNsecs(mIdealPeriod), fps)\<close>
  of the refresh-rate policy, which receives the ideal period and a frame rate.
\<close>

record 'fps Collaborators =
  roundedQuotient :: "int \<Rightarrow> int \<Rightarrow> int"
  getFrameRateDivisor :: "int \<Rightarrow> 'fps \<Rightarrow> int"

definition getVsyncSequenceLocked ::
  "'fps Collaborators \<Rightarrow> 'fps VSyncPredictor \<Rightarrow> int \<Rightarrow> fault + VsyncSequence" where
  "getVsyncSequenceLocked env s timestamp =
     (case nextAnticipatedVSyncTimeFromLocked s timestamp of
        Inl e \<Rightarrow> Inl e
      | Inr vsync \<Rightarrow>
          (case mLastVsyncSequence s of
             None \<Rightarrow> Inr \<lparr>vsyncTime = vsync, seq = 0\<rparr>
           | Some lastSeq \<Rightarrow>
               (case getVSyncPredictionModelLocked s of
                  Inl e \<Rightarrow> Inl e
                | Inr model \<Rightarrow>
                    Inr \<lparr>vsyncTime = vsync,
                         seq = seq lastSeq
                           + roundedQuotient env (vsync - vsyncTime lastSeq) (slope model)\<rparr>)))"

definition renderRatePhase ::
  "'fps Collaborators \<Rightarrow> 'fps VSyncPredictor \<Rightarrow> VsyncSequence \<Rightarrow> int" where
  "renderRatePhase env s lastVsyncSequence =
     (case mRenderRate s of
        None \<Rightarrow> 0
      | Some renderRate \<Rightarrow>
          (let divisor = getFrameRateDivisor env (mIdealPeriod s) renderRate
           in if divisor \<le> 1 then 0
              else
                (let md = seq lastVsyncSequence smod divisor
                 in if md = 0 then 0 else divisor - md)))"

definition nextAnticipatedVSyncTimeFrom ::
  "'fps Collaborators \<Rightarrow> 'fps VSyncPredictor \<Rightarrow> int \<Rightarrow> fault + int \<times> 'fps VSyncPredictor" where
  "nextAnticipatedVSyncTimeFrom env s timePoint =
     (case getVsyncSequenceLocked env s timePoint of
        Inl e \<Rightarrow> Inl e
      | Inr vs \<Rightarrow>
          (let s1 = s\<lparr>mLastVsyncSequence := Some vs\<rparr>;
               phase = renderRatePhase env s1 vs
           in if phase = 0 then Inr (vsyncTime vs, s1)
              else
                (case getVSyncPredictionModelLocked s1 of
                   Inl e \<Rightarrow> Inl e
                 | Inr model \<Rightarrow>
                     (let approximateNextVsync = vsyncTime vs + slope model * phase
                      in case nextAnticipatedVSyncTimeFromLocked s1
                                (approximateNextVsync - slope model sdiv 2) of
                           Inl e \<Rightarrow> Inl e
                         | Inr prediction \<Rightarrow> Inr (prediction, s1)))))"

text \<open>
  \<^verbatim>\<open>mRateMap[mIdealPeriod]\<close> as a read: a missing key is entered with a value-initialised
  model (the map is \<^verbatim>\<open>mutable\<close>).
\<close>

definition rm_index :: "RateMap \<Rightarrow> int \<Rightarrow> Model \<times> RateMap" where
  "rm_index m k =
     (case rm_find m k of
        Some v \<Rightarrow> (v, m)
      | None \<Rightarrow> (\<lparr>slope = 0, intercept = 0\<rparr>, rm_assign m k \<lparr>slope = 0, intercept = 0\<rparr>))"

definition isVSyncInPhaseLocked ::
  "'fps Collaborators \<Rightarrow> 'fps VSyncPredictor \<Rightarrow> int \<Rightarrow> int
     \<Rightarrow> fault + bool \<times> 'fps VSyncPredictor" where
  "isVSyncInPhaseLocked env s timePoint divisor =
     (if divisor \<le> 1 \<or> timePoint = 0 then Inr (True, s)
      else
        (case rm_index (mRateMap s) (mIdealPeriod s) of
           (model, m) \<Rightarrow>
             (let s1 = s\<lparr>mRateMap := m\<rparr>;
                  period = slope model;
                  justBeforeTimePoint = timePoint - period sdiv 2
              in case getVsyncSequenceLocked env s1 justBeforeTimePoint of
                   Inl e \<Rightarrow> Inl e
                 | Inr vsyncSequence \<Rightarrow> Inr (seq vsyncSequence smod divisor = 0, s1))))"

text \<open>The divisor is cast to \<^verbatim>\<open>unsigned\<close> (32 bits) on the way in.\<close>

definition isVSyncInPhase ::
  "'fps Collaborators \<Rightarrow> 'fps VSyncPredictor \<Rightarrow> int \<Rightarrow> 'fps
     \<Rightarrow> fault + bool \<times> 'fps VSyncPredictor" where
  "isVSyncInPhase env s timePoint frameRate =
     (let divisor = getFrameRateDivisor env (mIdealPeriod s) frameRate
      in isVSyncInPhaseLocked env s timePoint (divisor mod 2 ^ 32))"

definition setRenderRate :: "'fps VSyncPredictor \<Rightarrow> 'fps \<Rightarrow> 'fps VSyncPredictor" where
  "setRenderRate s fps = s\<lparr>mRenderRate := Some fps\<rparr>"

definition currentPeriod :: "'fps VSyncPredictor \<Rightarrow> fault + int" where
  "currentPeriod s =
     (case rm_find (mRateMap s) (mIdealPeriod s) of
        None \<Rightarrow> Inl NoRateMapEntry
      | Some model \<Rightarrow> Inr (slope model))"

definition getVSyncPredictionModel :: "'fps VSyncPredictor \<Rightarrow> fault + Model" where
  "getVSyncPredictionModel s =
     (case getVSyncPredictionModelLocked s of
        Inl e \<Rightarrow> Inl e
      | Inr model \<Rightarrow> Inr \<lparr>slope = slope model, intercept = intercept model\<rparr>)"

definition needsMoreSamples :: "'fps VSyncPredictor \<Rightarrow> bool" where
  "needsMoreSamples s = (length (mTimestamps s) < kMinimumSamplesForPrediction s)"

subsection \<open>Sequences of calls\<close>

text \<open>
  The public operations as a datatype of calls, and the state a sequence of calls leaves
  behind. \<^verbatim>\<open>dump\<close> formats the rate map as text and only reads the state.
\<close>

datatype 'fps call =
    AddVsyncTimestamp int
  | SetPeriod int
  | ResetModel
  | NextAnticipatedVSyncTimeFrom int
  | IsVSyncInPhase int 'fps
  | SetRenderRate 'fps
  | CurrentPeriod
  | GetVSyncPredictionModel
  | NeedsMoreSamples
  | Dump

fun perform ::
  "'fps Collaborators \<Rightarrow> 'fps VSyncPredictor \<Rightarrow> 'fps call \<Rightarrow> fault + 'fps VSyncPredictor" where
  "perform env s (AddVsyncTimestamp t) = map_sum id snd (addVsyncTimestamp s t)"
| "perform env s (SetPeriod p) = Inr (setPeriod s p)"
| "perform env s ResetModel = Inr (resetModel s)"
| "perform env s (NextAnticipatedVSyncTimeFrom t) =
     map_sum id snd (nextAnticipatedVSyncTimeFrom env s t)"
| "perform env s (IsVSyncInPhase t r) = map_sum id snd (isVSyncInPhase env s t r)"
| "perform env s (SetRenderRate r) = Inr (setRenderRate s r)"
| "perform env s CurrentPeriod = map_sum id (\<lambda>_. s) (currentPeriod s)"
| "perform env s GetVSyncPredictionModel = map_sum id (\<lambda>_. s) (getVSyncPredictionModel s)"
| "perform env s NeedsMoreSamples = Inr s"
| "perform env s Dump = Inr s"

fun run ::
  "'fps Collaborators \<Rightarrow> 'fps VSyncPredictor \<Rightarrow> 'fps call list \<Rightarrow> fault + 'fps VSyncPredictor" where
  "run env s [] = Inr s"
| "run env s (c # cs) = (case perform env s c of Inl e \<Rightarrow> Inl e | Inr s' \<Rightarrow> run env s' cs)"

subsection \<open>Example states\<close>

text \<open>
  A predictor for a period of 1000 ns with a history of 20, 6 samples before a fit and a
  tolerance of 25 percent, after six evenly spaced samples; and collaborators that round
  the quotient to the nearest integer and report a divisor of 2.
\<close>

definition converged :: "unit VSyncPredictor" where
  "converged =
     \<lparr>kHistorySize = 20, kMinimumSamplesForPrediction = 6, kOutlierTolerancePercent = 25,
      mIdealPeriod = 1000, mKnownTimestamp = None,
      mRateMap = [(1000, \<lparr>slope = 1000, intercept = 0\<rparr>)],
      mLastTimestampIndex = 5, mTimestamps = [0, 1000, 2000, 3000, 4000, 5000],
      mLastVsyncSequence = None, mRenderRate = None\<rparr>"

definition halfRate :: "unit Collaborators" where
  "halfRate =
     \<lparr>roundedQuotient = (\<lambda>a b. (2 * a + b) div (2 * b)),
      getFrameRateDivisor = (\<lambda>period rate. 2)\<rparr>"

text \<open>
  A predictor that fits from the second sample on, after one sample at 5000 ns.
\<close>

definition afterFirstSample :: "unit VSyncPredictor" where
  "afterFirstSample =
     \<lparr>kHistorySize = 20, kMinimumSamplesForPrediction = 2, kOutlierTolerancePercent = 25,
      mIdealPeriod = 1000, mKnownTimestamp = None,
      mRateMap = [(1000, \<lparr>slope = 1000, intercept = 0\<rparr>)],
      mLastTimestampIndex = 0, mTimestamps = [5000],
      mLastVsyncSequence = None, mRenderRate = None\<rparr>"

text \<open>
  A predictor with a tolerance of 0 percent after one sample at 5000 ns; and the state in
  which the first example is after a render rate has been set, a prediction and a phase
  have been asked for, the period has been switched to 2000 ns and the model has been
  reset.
\<close>

definition zeroTolerance :: "unit VSyncPredictor" where
  "zeroTolerance =
     \<lparr>kHistorySize = 20, kMinimumSamplesForPrediction = 6, kOutlierTolerancePercent = 0,
      mIdealPeriod = 1000, mKnownTimestamp = None,
      mRateMap = [(1000, \<lparr>slope = 1000, intercept = 0\<rparr>)],
      mLastTimestampIndex = 0, mTimestamps = [5000],
      mLastVsyncSequence = None, mRenderRate = None\<rparr>"

definition switched :: "unit VSyncPredictor" where
  "switched =
     \<lparr>kHistorySize = 20, kMinimumSamplesForPrediction = 6, kOutlierTolerancePercent = 25,
      mIdealPeriod = 2000, mKnownTimestamp = Some 5000,
      mRateMap = [(1000, \<lparr>slope = 1000, intercept = 0\<rparr>), (2000, \<lparr>slope = 2000, intercept = 0\<rparr>)],
      mLastTimestampIndex = 0, mTimestamps = [],
      mLastVsyncSequence = Some \<lparr>vsyncTime = 6000, seq = 0\<rparr>,
      mRenderRate = Some ()\<rparr>"

subsection \<open>The invariant of the rate map\<close>

text \<open>
  The rate map has at most \<^verbatim>\<open>kSizeLimit\<close> entries and holds an entry for the active ideal
  period.
\<close>

definition rateMapInvariant :: "'fps VSyncPredictor \<Rightarrow> bool" where
  "rateMapInvariant s \<longleftrightarrow>
     length (mRateMap s) \<le> kSizeLimit \<and> rm_find (mRateMap s) (mIdealPeriod s) \<noteq> None"

section \<open>Auxiliary facts\<close>

subsection \<open>The example states are reachable\<close>

lemma converged_reachable:
  "run halfRate (construct 1000 20 6 25)
     (map AddVsyncTimestamp [0, 1000, 2000, 3000, 4000, 5000]) = Inr converged"
  by code_simp

lemma afterFirstSample_reachable:
  "run halfRate (construct 1000 20 2 25) [AddVsyncTimestamp 5000] = Inr afterFirstSample"
  by code_simp

lemma zeroTolerance_reachable:
  "run halfRate (construct 1000 20 6 0) [AddVsyncTimestamp 5000] = Inr zeroTolerance"
  by code_simp

lemma switched_reachable:
  "run halfRate (construct 1000 20 6 25)
     (map AddVsyncTimestamp [0, 1000, 2000, 3000, 4000, 5000] @
      [SetRenderRate (), NextAnticipatedVSyncTimeFrom 5500, IsVSyncInPhase 7000 (),
       CurrentPeriod, SetPeriod 2000, ResetModel]) = Inr switched"
  by code_simp

subsection \<open>Extrema, the rate map, clearing and inserting\<close>

lemma max_element_Max: "max_element t ts = Max (set (t # ts))"
proof -
  have "(\<lambda>a largest. if largest < a then a else largest) = (max :: int \<Rightarrow> int \<Rightarrow> int)"
    by (intro ext) (simp add: max_def)
  then show ?thesis
    unfolding max_element_def Max.set_eq_fold by simp
qed

lemma min_element_Min: "min_element t ts = Min (set (t # ts))"
proof -
  have "(\<lambda>a smallest. if a < smallest then a else smallest) = (min :: int \<Rightarrow> int \<Rightarrow> int)"
    by (intro ext) (simp add: min_def)
  then show ?thesis
    unfolding min_element_def min_element_by_def Min.set_eq_fold by simp
qed

lemma rm_find_assign_same: "rm_find (rm_assign m k v) k = Some v"
  by (induction m k v rule: rm_assign.induct) (simp_all add: rm_find_def)

lemma rm_find_assign_other: "k' \<noteq> k \<Longrightarrow> rm_find (rm_assign m k v) k' = rm_find m k'"
  by (induction m k v rule: rm_assign.induct) (simp_all add: rm_find_def)

lemma clearTimestamps_timestamps: "mTimestamps (clearTimestamps s) = []"
  by (simp add: clearTimestamps_def Let_def split: list.splits)

lemma clearTimestamps_rateMap: "mRateMap (clearTimestamps s) = mRateMap s"
  by (simp add: clearTimestamps_def Let_def split: list.splits)

lemma clearTimestamps_idealPeriod: "mIdealPeriod (clearTimestamps s) = mIdealPeriod s"
  by (simp add: clearTimestamps_def Let_def split: list.splits)

lemma clearTimestamps_known:
  "mTimestamps s \<noteq> [] \<Longrightarrow>
   mKnownTimestamp (clearTimestamps s) =
     (case mKnownTimestamp s of
        Some known \<Rightarrow> Some (max known (Max (set (mTimestamps s))))
      | None \<Rightarrow> Some (Max (set (mTimestamps s))))"
  by (cases "mTimestamps s")
     (simp_all add: clearTimestamps_def Let_def max_element_Max split: option.splits)

lemma insertTimestamp_frame:
  assumes "insertTimestamp s timestamp = Inr s1"
  shows "mTimestamps s1 \<noteq> []"
    and "mIdealPeriod s1 = mIdealPeriod s"
    and "mRateMap s1 = mRateMap s"
    and "kMinimumSamplesForPrediction s1 = kMinimumSamplesForPrediction s"
    and "kOutlierTolerancePercent s1 = kOutlierTolerancePercent s"
    and "mKnownTimestamp s1 = mKnownTimestamp s"
  using assms
  by (auto simp: insertTimestamp_def next_index_def Let_def split: if_splits)

lemma rejectFit_effect:
  "mTimestamps (rejectFit s) = []"
  "mIdealPeriod (rejectFit s) = mIdealPeriod s"
  "rm_find (mRateMap (rejectFit s)) (mIdealPeriod s)
     = Some \<lparr>slope = mIdealPeriod s, intercept = 0\<rparr>"
  by (simp_all add: rejectFit_def clearTimestamps_timestamps clearTimestamps_idealPeriod
        clearTimestamps_rateMap rm_find_assign_same trivialModel_def)

subsection \<open>Truncating division and the warm-path prediction\<close>

lemma sdiv_nonneg_eq_div: "0 \<le> a \<Longrightarrow> 0 < d \<Longrightarrow> a sdiv d = a div (d::int)"
  by (simp add: signed_divide_int_def sgn_if)

lemma sdiv_mult_gt:
  fixes a d :: int
  assumes "0 < d"
  shows "a - d < a sdiv d * d"
proof (cases "0 \<le> a")
  case True
  then have "a sdiv d = a div d"
    using assms by (rule sdiv_nonneg_eq_div)
  moreover have "a - d < a div d * d"
    using assms pos_mod_bound [of d a] by (simp add: minus_mod_eq_div_mult [symmetric])
  ultimately show ?thesis by simp
next
  case False
  then have "a sdiv d = - ((- a) div d)"
    using assms by (simp add: signed_divide_int_def sgn_if)
  moreover have "(- a) div d * d \<le> - a"
    using assms pos_mod_sign [of d "- a"] by (simp add: minus_mod_eq_div_mult [symmetric])
  ultimately show ?thesis
    using assms by simp
qed

lemma locked_prediction:
  assumes "mTimestamps s \<noteq> []"
    and "rm_find (mRateMap s) (mIdealPeriod s) = Some model"
    and "0 < slope model"
  shows "nextAnticipatedVSyncTimeFromLocked s timePoint =
           Inr ((timePoint - (Min (set (mTimestamps s)) + intercept model) + slope model)
                  sdiv slope model * slope model
                + intercept model + Min (set (mTimestamps s)))"
    and "timePoint < (timePoint - (Min (set (mTimestamps s)) + intercept model) + slope model)
                  sdiv slope model * slope model
                + intercept model + Min (set (mTimestamps s))"
proof -
  let ?zero = "Min (set (mTimestamps s)) + intercept model"
  let ?q = "(timePoint - ?zero + slope model) sdiv slope model"
  have "timePoint - ?zero + slope model - slope model < ?q * slope model"
    using assms(3) by (rule sdiv_mult_gt)
  then show gt: "timePoint < ?q * slope model + intercept model + Min (set (mTimestamps s))"
    by simp
  obtain t ts where "mTimestamps s = t # ts"
    using assms(1) by (cases "mTimestamps s") auto
  then show "nextAnticipatedVSyncTimeFromLocked s timePoint =
           Inr (?q * slope model + intercept model + Min (set (mTimestamps s)))"
    using assms(2,3) gt
    by (simp add: nextAnticipatedVSyncTimeFromLocked_def getVSyncPredictionModelLocked_def
          Let_def min_element_Min)
qed

lemma renderRatePhase_nonneg: "0 \<le> renderRatePhase env s vs"
proof -
  have "d - a smod d > 0" if "1 < d" for a d :: int
    using smod_int_range [of d a] that by auto
  then show ?thesis
    by (auto simp: renderRatePhase_def Let_def split: option.splits intro: less_imp_le)
qed

lemma getVsyncSequenceLocked_time:
  assumes "nextAnticipatedVSyncTimeFromLocked s timePoint = Inr p"
    and "rm_find (mRateMap s) (mIdealPeriod s) = Some model"
  shows "\<exists>vs. getVsyncSequenceLocked env s timePoint = Inr vs \<and> vsyncTime vs = p"
  using assms
  by (simp add: getVsyncSequenceLocked_def getVSyncPredictionModelLocked_def split: option.splits)

lemma least_ordinal_after:
  fixes x d :: int
  assumes "0 < d"
  shows "x < (x div d + 1) * d" and "x < k * d \<Longrightarrow> x div d + 1 \<le> k"
proof -
  show "x < (x div d + 1) * d"
    using assms pos_mod_bound [of d x] by (simp add: algebra_simps minus_mod_eq_mult_div [symmetric])
  assume lt: "x < k * d"
  have "x div d < k"
  proof (rule ccontr)
    assume "\<not> x div d < k"
    then have "k * d \<le> x div d * d"
      using assms by (simp add: mult_right_mono)
    also have "\<dots> \<le> x"
      using assms pos_mod_sign [of d x] by (simp add: minus_mod_eq_div_mult [symmetric])
    finally show False
      using lt by simp
  qed
  then show "x div d + 1 \<le> k"
    by simp
qed

subsection \<open>The verdict of validate\<close>

lemma sub_u32_percent: "b \<le> 100 \<Longrightarrow> sub_u32 kMaxPercent b = 100 - int b"
  by (simp add: sub_u32_def kMaxPercent_def)

lemma nearest_distance:
  fixes x :: int
  shows "\<bar>x - fold (\<lambda>a smallest. if \<bar>x - a\<bar> < \<bar>x - smallest\<bar> then a else smallest) ts t\<bar>
     = fold min (map (\<lambda>a. \<bar>x - a\<bar>) ts) \<bar>x - t\<bar>"
proof (induction ts arbitrary: t)
  case Nil
  show ?case by simp
next
  case (Cons a ts)
  show ?case
  proof (cases "\<bar>x - a\<bar> < \<bar>x - t\<bar>")
    case True
    then have "min \<bar>x - a\<bar> \<bar>x - t\<bar> = \<bar>x - a\<bar>"
      by simp
    with True show ?thesis
      by (simp add: Cons.IH)
  next
    case False
    then have "min \<bar>x - a\<bar> \<bar>x - t\<bar> = \<bar>x - t\<bar>"
      by simp
    with False show ?thesis
      by (simp add: Cons.IH)
  qed
qed

lemma distancePercent_Min:
  assumes "0 < idealPeriod"
  shows "distancePercent idealPeriod t ts x
           = Min ((\<lambda>a. \<bar>x - a\<bar>) ` set (t # ts)) * 100 div idealPeriod"
proof -
  let ?g = "\<lambda>a. \<bar>x - a\<bar>"
  let ?it = "min_element_by (\<lambda>a b. \<bar>x - a\<bar> < \<bar>x - b\<bar>) t ts"
  have "\<bar>?it - x\<bar> = \<bar>x - ?it\<bar>"
    by (rule abs_minus_commute)
  also have "\<dots> = fold min (map ?g ts) (?g t)"
    unfolding min_element_by_def by (rule nearest_distance)
  also have "\<dots> = Min (set (?g t # map ?g ts))"
    by (rule Min.set_eq_fold [symmetric])
  also have "\<dots> = Min (?g ` set (t # ts))"
    by simp
  finally have d: "\<bar>?it - x\<bar> = Min (?g ` set (t # ts))" .
  have "0 \<le> \<bar>?it - x\<bar> * 100"
    by simp
  then have "\<bar>?it - x\<bar> * 100 sdiv idealPeriod = \<bar>?it - x\<bar> * 100 div idealPeriod"
    using assms by (rule sdiv_nonneg_eq_div)
  then show ?thesis
    using d by (simp add: distancePercent_def Let_def kMaxPercent_def)
qed

lemma validate_verdict:
  assumes "mTimestamps s = t # ts"
    and "0 \<le> mLastTimestampIndex s"
    and "nat (mLastTimestampIndex s) < length (t # ts)"
    and "mIdealPeriod s \<noteq> 0"
  shows "validate s timestamp =
           Inr (\<not> (int (kOutlierTolerancePercent s)
                      \<le> residualPercent (mIdealPeriod s)
                          ((t # ts) ! nat (mLastTimestampIndex s)) timestamp \<and>
                    residualPercent (mIdealPeriod s)
                        ((t # ts) ! nat (mLastTimestampIndex s)) timestamp
                      \<le> sub_u32 kMaxPercent (kOutlierTolerancePercent s)) \<and>
                \<not> distancePercent (mIdealPeriod s) t ts timestamp
                    < int (kOutlierTolerancePercent s))"
  using assms
  by (simp add: validate_def Let_def)

lemma sdiv_nonpos_pos: "a \<le> 0 \<Longrightarrow> 0 < d \<Longrightarrow> a sdiv d \<le> (0::int)"
  by (simp add: signed_divide_int_def sgn_if pos_imp_zdiv_nonneg_iff)

subsection \<open>The keys of the rate map under setPeriod\<close>

lemma rm_find_None_iff: "rm_find m k = None \<longleftrightarrow> k \<notin> fst ` set m"
  by (simp add: rm_find_def map_of_eq_None_iff)

lemma rm_assign_absent: "rm_find m k = None \<Longrightarrow> rm_assign m k v = m @ [(k, v)]"
  by (induction m k v rule: rm_assign.induct) (auto simp: rm_find_def split: if_splits)

lemma rm_assign_length_present: "rm_find m k \<noteq> None \<Longrightarrow> length (rm_assign m k v) = length m"
  by (induction m k v rule: rm_assign.induct) (auto simp: rm_find_def split: if_splits)

lemma rm_assign_keys:
  "map fst (rm_assign m k v) = (if k \<in> fst ` set m then map fst m else map fst m @ [k])"
  by (induction m k v rule: rm_assign.induct) auto

lemma construct_rateMap:
  "mRateMap (construct p h m tol) = [(p, trivialModel p)]"
  "mIdealPeriod (construct p h m tol) = p"
  by (simp_all add: construct_def resetModel_def clearTimestamps_def)

lemma setPeriod_rateMap:
  "mRateMap (setPeriod s period) =
     (let m1 = (if length (mRateMap s) = kSizeLimit then tl (mRateMap s) else mRateMap s)
      in if rm_find m1 period = None then m1 @ [(period, trivialModel period)] else m1)"
  by (simp add: setPeriod_def Let_def clearTimestamps_rateMap rm_erase_begin_def rm_assign_absent)

lemma setPeriod_idealPeriod: "mIdealPeriod (setPeriod s period) = period"
  by (simp add: setPeriod_def Let_def clearTimestamps_idealPeriod)

lemma setPeriod_keys:
  assumes "period \<notin> fst ` set (mRateMap s)"
  shows "map fst (mRateMap (setPeriod s period)) =
           (if length (mRateMap s) = 30 then tl (map fst (mRateMap s)) else map fst (mRateMap s))
             @ [period]"
proof -
  have "period \<notin> fst ` set (tl (mRateMap s))"
    using assms by (cases "mRateMap s") auto
  then show ?thesis
    using assms by (simp add: setPeriod_rateMap kSizeLimit_def rm_find_None_iff map_tl)
qed

lemma keys_after_setPeriods:
  assumes "distinct (p0 # ps)"
  shows "map fst (mRateMap (foldl setPeriod (construct p0 h m tol :: 'fps VSyncPredictor) ps))
           = drop (Suc (length ps) - 30) (p0 # ps)"
  using assms
proof (induction ps rule: rev_induct)
  case Nil
  show ?case by (simp add: construct_rateMap)
next
  case (snoc p ps)
  let ?s = "foldl setPeriod (construct p0 h m tol :: 'fps VSyncPredictor) ps"
  let ?n = "Suc (length ps) - 30"
  from snoc.prems have d: "distinct (p0 # ps)" and new: "p \<notin> set (p0 # ps)"
    by auto
  have keys: "map fst (mRateMap ?s) = drop ?n (p0 # ps)"
    using snoc.IH [OF d] .
  have "set (drop ?n (p0 # ps)) \<subseteq> set (p0 # ps)"
    by (rule set_drop_subset)
  with new keys have absent: "p \<notin> fst ` set (mRateMap ?s)"
    by (metis list.set_map subsetD)
  have len: "length (mRateMap ?s) = Suc (length ps) - ?n"
    using arg_cong [OF keys, of length] by simp
  have "map fst (mRateMap (setPeriod ?s p)) =
          (if length (mRateMap ?s) = 30 then tl (map fst (mRateMap ?s)) else map fst (mRateMap ?s))
            @ [p]"
    using absent by (rule setPeriod_keys)
  also have "\<dots> = drop (Suc (length (ps @ [p])) - 30) (p0 # ps @ [p])"
  proof (cases "Suc (length ps) < 30")
    case True
    with len keys show ?thesis by simp
  next
    case False
    then have l30: "length (mRateMap ?s) = 30"
      using len by simp
    have "tl (drop ?n (p0 # ps)) = drop (Suc ?n) (p0 # ps)"
      by (simp add: tl_drop drop_Suc)
    moreover have "Suc (length (ps @ [p])) - 30 = Suc ?n"
      using False by simp
    moreover have "drop (Suc ?n) ((p0 # ps) @ [p]) = drop (Suc ?n) (p0 # ps) @ [p]"
      using False by simp
    ultimately show ?thesis
      using l30 keys by simp
  qed
  finally show ?case
    by simp
qed

subsection \<open>Preservation of the rate-map invariant\<close>

lemma rateMapInvariant_assign:
  assumes "rateMapInvariant s"
  shows "rateMapInvariant
           (s\<lparr>mRateMap := rm_assign (mRateMap s) (mIdealPeriod s) v\<rparr>)"
  using assms
  by (simp add: rateMapInvariant_def rm_assign_length_present rm_find_assign_same)

lemma rateMapInvariant_cong:
  assumes "rateMapInvariant s" and "mRateMap s' = mRateMap s" and "mIdealPeriod s' = mIdealPeriod s"
  shows "rateMapInvariant s'"
  using assms by (simp add: rateMapInvariant_def)

lemma rateMapInvariant_clearTimestamps:
  "rateMapInvariant s \<Longrightarrow> rateMapInvariant (clearTimestamps s)"
  by (rule rateMapInvariant_cong) (simp_all add: clearTimestamps_rateMap clearTimestamps_idealPeriod)

lemma rateMapInvariant_resetModel: "rateMapInvariant s \<Longrightarrow> rateMapInvariant (resetModel s)"
  unfolding resetModel_def
  by (intro rateMapInvariant_clearTimestamps rateMapInvariant_assign)

lemma rateMapInvariant_rejectFit: "rateMapInvariant s \<Longrightarrow> rateMapInvariant (rejectFit s)"
  unfolding rejectFit_def
  by (intro rateMapInvariant_clearTimestamps rateMapInvariant_assign)

lemma rateMapInvariant_construct: "rateMapInvariant (construct p h m tol)"
  by (simp add: rateMapInvariant_def construct_rateMap rm_find_def kSizeLimit_def)

lemma rateMapInvariant_setPeriod:
  assumes "rateMapInvariant s"
  shows "rateMapInvariant (setPeriod s period)"
proof -
  have "length (if length (mRateMap s) = kSizeLimit then tl (mRateMap s) else mRateMap s)
          < kSizeLimit"
    using assms by (auto simp: rateMapInvariant_def kSizeLimit_def)
  then show ?thesis
    by (auto simp: rateMapInvariant_def setPeriod_rateMap setPeriod_idealPeriod Let_def
          rm_find_None_iff)
qed

lemma rateMapInvariant_fitModel:
  assumes "rateMapInvariant s" and "fitModel s = Inr (b, s')"
  shows "rateMapInvariant s'"
  using assms(2) rateMapInvariant_rejectFit [OF assms(1)] rateMapInvariant_assign [OF assms(1)]
  by (auto simp: fitModel_def Let_def split: list.splits option.splits prod.splits if_splits)

lemma rateMapInvariant_insertTimestamp:
  assumes "rateMapInvariant s" and "insertTimestamp s t = Inr s1"
  shows "rateMapInvariant s1"
  using assms(1) insertTimestamp_frame(2,3) [OF assms(2)]
  by (simp add: rateMapInvariant_def)

lemma rateMapInvariant_addVsyncTimestamp:
  assumes "rateMapInvariant s" and "addVsyncTimestamp s t = Inr (b, s')"
  shows "rateMapInvariant s'"
proof (cases "validate s t")
  case (Inl e)
  with assms(2) show ?thesis by (simp add: addVsyncTimestamp_def)
next
  case (Inr ok)
  show ?thesis
  proof (cases ok)
    case False
    have "rateMapInvariant (clearTimestamps (s\<lparr>mTimestamps := mTimestamps s @ [t]\<rparr>))"
      using assms(1) by (intro rateMapInvariant_clearTimestamps) (simp add: rateMapInvariant_def)
    moreover have "rateMapInvariant (s\<lparr>mKnownTimestamp := k\<rparr>)" for k
      using assms(1) by (simp add: rateMapInvariant_def)
    ultimately show ?thesis
      using assms(2) Inr False
      by (auto simp: addVsyncTimestamp_def split: if_splits list.splits)
  next
    case True
    then obtain s1 where s1: "insertTimestamp s t = Inr s1"
      using assms(2) Inr by (auto simp: addVsyncTimestamp_def split: sum.splits)
    have inv1: "rateMapInvariant s1"
      using assms(1) s1 by (rule rateMapInvariant_insertTimestamp)
    show ?thesis
      using assms(2) Inr True s1 rateMapInvariant_assign [OF inv1]
        rateMapInvariant_fitModel [OF inv1]
      by (auto simp: addVsyncTimestamp_def split: if_splits)
  qed
qed

lemma rateMapInvariant_nextAnticipatedVSyncTimeFrom:
  assumes "rateMapInvariant s" and "nextAnticipatedVSyncTimeFrom env s t = Inr (p, s')"
  shows "rateMapInvariant s'"
proof -
  have "rateMapInvariant (s\<lparr>mLastVsyncSequence := v\<rparr>)" for v
    using assms(1) by (simp add: rateMapInvariant_def)
  then show ?thesis
    using assms(2)
    by (auto simp: nextAnticipatedVSyncTimeFrom_def Let_def split: sum.splits if_splits)
qed

lemma rateMapInvariant_isVSyncInPhase:
  assumes "rateMapInvariant s" and "isVSyncInPhase env s t r = Inr (b, s')"
  shows "rateMapInvariant s'"
proof -
  obtain model where "rm_index (mRateMap s) (mIdealPeriod s) = (model, mRateMap s)"
    using assms(1) by (auto simp: rateMapInvariant_def rm_index_def)
  then show ?thesis
    using assms
    by (auto simp: isVSyncInPhase_def isVSyncInPhaseLocked_def Let_def
          split: sum.splits if_splits)
qed

section \<open>Rejected samples once enough samples are buffered\<close>

text \<open>
  Claim C5. In a state that buffers at least \<^verbatim>\<open>kMinimumSamplesForPrediction\<close> timestamps,
  a timestamp that \<^verbatim>\<open>validate\<close> rejects makes \<^verbatim>\<open>addVsyncTimestamp\<close> return false; the
  only field that changes is \<^verbatim>\<open>mKnownTimestamp\<close>, which becomes the maximum of the
  timestamp and the buffered timestamps. The buffer and the rate map, and with it the
  model of the active period, stay as they are.
\<close>

theorem addVsyncTimestamp_rejected_converged:
  assumes "validate s timestamp = Inr False"
    and "kMinimumSamplesForPrediction s \<le> length (mTimestamps s)"
  shows "addVsyncTimestamp s timestamp =
           Inr (False, s\<lparr>mKnownTimestamp := Some (max timestamp (Max (set (mTimestamps s))))\<rparr>)"
proof (cases "mTimestamps s")
  case Nil
  with assms(1) show ?thesis by (simp add: validate_def)
next
  case (Cons t ts)
  with assms show ?thesis
    by (simp add: addVsyncTimestamp_def max_element_Max)
qed

theorem addVsyncTimestamp_rejected_converged_witness:
  "run halfRate (construct 1000 20 6 25)
     (map AddVsyncTimestamp [0, 1000, 2000, 3000, 4000, 5000]) = Inr converged \<and>
   validate converged 5500 = Inr False \<and>
   kMinimumSamplesForPrediction converged \<le> length (mTimestamps converged) \<and>
   addVsyncTimestamp converged 5500 = Inr (False, converged\<lparr>mKnownTimestamp := Some 5500\<rparr>)"
proof -
  have v: "validate converged 5500 = Inr False"
    by code_simp
  have m: "kMinimumSamplesForPrediction converged \<le> length (mTimestamps converged)"
    by (simp add: converged_def)
  show ?thesis
    using addVsyncTimestamp_rejected_converged [OF v m] v converged_reachable
    by (simp add: converged_def)
qed

section \<open>Accepted samples during learning\<close>

text \<open>
  Claim C7. When a timestamp passes \<^verbatim>\<open>validate\<close> and the buffer, after the timestamp has
  been inserted, still holds fewer than \<^verbatim>\<open>kMinimumSamplesForPrediction\<close> timestamps,
  \<^verbatim>\<open>addVsyncTimestamp\<close> returns true and the model of the active ideal period is the
  trivial one, whatever the timestamps are: no fit takes place. The buffer is the one the
  insertion produced, and the other entries of the rate map are untouched.
\<close>

theorem addVsyncTimestamp_learning:
  assumes "validate s timestamp = Inr True"
    and "insertTimestamp s timestamp = Inr s1"
    and "length (mTimestamps s1) < kMinimumSamplesForPrediction s"
  shows "\<exists>s'. addVsyncTimestamp s timestamp = Inr (True, s') \<and>
              rm_find (mRateMap s') (mIdealPeriod s')
                = Some \<lparr>slope = mIdealPeriod s, intercept = 0\<rparr> \<and>
              (\<forall>k. k \<noteq> mIdealPeriod s \<longrightarrow> rm_find (mRateMap s') k = rm_find (mRateMap s) k) \<and>
              mIdealPeriod s' = mIdealPeriod s \<and>
              mTimestamps s' = mTimestamps s1 \<and>
              mKnownTimestamp s' = mKnownTimestamp s"
  using assms insertTimestamp_frame [OF assms(2)]
  by (simp add: addVsyncTimestamp_def rm_find_assign_same rm_find_assign_other trivialModel_def)

theorem addVsyncTimestamp_learning_witness:
  "(\<exists>s'. addVsyncTimestamp (construct 1000 20 6 25 :: unit VSyncPredictor) 0 = Inr (True, s') \<and>
         rm_find (mRateMap s') (mIdealPeriod s') = Some \<lparr>slope = 1000, intercept = 0\<rparr> \<and>
         mTimestamps s' = [0]) \<and>
   (\<exists>s'. addVsyncTimestamp
               ((construct 1000 20 6 25 :: unit VSyncPredictor)\<lparr>mTimestamps := [0]\<rparr>) 1000
           = Inr (True, s') \<and>
         rm_find (mRateMap s') (mIdealPeriod s') = Some \<lparr>slope = 1000, intercept = 0\<rparr> \<and>
         mTimestamps s' = [0, 1000])"
proof -
  let ?a = "construct 1000 20 6 25 :: unit VSyncPredictor"
  let ?a1 = "?a\<lparr>mTimestamps := [0], mLastTimestampIndex := 0\<rparr>"
  have a: "validate ?a 0 = Inr True" "insertTimestamp ?a 0 = Inr ?a1"
    "length (mTimestamps ?a1) < kMinimumSamplesForPrediction ?a"
    by code_simp+
  have ap: "mIdealPeriod ?a = 1000"
    by code_simp
  let ?b = "?a\<lparr>mTimestamps := [0]\<rparr>"
  let ?b1 = "?b\<lparr>mTimestamps := [0, 1000], mLastTimestampIndex := 1\<rparr>"
  have b: "validate ?b 1000 = Inr True" "insertTimestamp ?b 1000 = Inr ?b1"
    "length (mTimestamps ?b1) < kMinimumSamplesForPrediction ?b"
    by code_simp+
  have bp: "mIdealPeriod ?b = 1000"
    by code_simp
  show ?thesis
    using addVsyncTimestamp_learning [OF a] ap addVsyncTimestamp_learning [OF b] bp by auto
qed

section \<open>setPeriod clears the history and keeps the latest timestamp\<close>

text \<open>
  Claim C9. \<^verbatim>\<open>setPeriod\<close> leaves the timestamp buffer empty. When the buffer was not
  empty before the call, \<^verbatim>\<open>mKnownTimestamp\<close> afterwards is the maximum of the previous
  known timestamp and the largest buffered timestamp, or the largest buffered timestamp
  when no known timestamp existed.
\<close>

theorem setPeriod_clears_history:
  "mTimestamps (setPeriod s period) = [] \<and>
   (mTimestamps s \<noteq> [] \<longrightarrow>
      mKnownTimestamp (setPeriod s period) =
        (case mKnownTimestamp s of
           Some known \<Rightarrow> Some (max known (Max (set (mTimestamps s))))
         | None \<Rightarrow> Some (Max (set (mTimestamps s)))))"
  by (simp add: setPeriod_def Let_def clearTimestamps_timestamps clearTimestamps_known
        split: option.splits)

theorem setPeriod_clears_history_witness:
  "mTimestamps converged \<noteq> [] \<and> mTimestamps (setPeriod converged 2000) = [] \<and>
   mKnownTimestamp (setPeriod converged 2000) = Some 5000 \<and>
   mKnownTimestamp (setPeriod (converged\<lparr>mKnownTimestamp := Some 9000\<rparr>) 2000) = Some 9000 \<and>
   mKnownTimestamp (setPeriod (converged\<lparr>mKnownTimestamp := Some 10\<rparr>) 2000) = Some 5000"
  using setPeriod_clears_history [of converged 2000]
    setPeriod_clears_history [of "converged\<lparr>mKnownTimestamp := Some 9000\<rparr>" 2000]
    setPeriod_clears_history [of "converged\<lparr>mKnownTimestamp := Some 10\<rparr>" 2000]
  by (simp add: converged_def)

section \<open>Rejected fits\<close>

text \<open>
  Claim C6. When a validated timestamp has been inserted, the buffer holds at least
  \<^verbatim>\<open>kMinimumSamplesForPrediction\<close> timestamps, and the regression yields a denominator
  \<open>sumBottom\<close> of zero, or a slope whose distance from the ideal period, in percent of
  the ideal period, is at least the outlier tolerance, then \<^verbatim>\<open>addVsyncTimestamp\<close>
  returns false, the buffer is empty afterwards and the model of the active ideal period
  is the trivial one.
\<close>

theorem addVsyncTimestamp_fit_rejected:
  assumes "validate s timestamp = Inr True"
    and "insertTimestamp s timestamp = Inr s1"
    and "kMinimumSamplesForPrediction s \<le> length (mTimestamps s1)"
    and "rm_find (mRateMap s) (mIdealPeriod s) = Some model"
    and "regression (slope model) (Min (set (mTimestamps s1))) (mTimestamps s1)
           = (meanTS, meanOrdinal, sumTop, sumBottom)"
    and "sumBottom = 0 \<or>
         (mIdealPeriod s \<noteq> 0 \<and>
          int (kOutlierTolerancePercent s)
            \<le> \<bar>sumTop * 1000 sdiv sumBottom - mIdealPeriod s\<bar> * 100 sdiv mIdealPeriod s)"
  shows "\<exists>s'. addVsyncTimestamp s timestamp = Inr (False, s') \<and>
              mTimestamps s' = [] \<and>
              mIdealPeriod s' = mIdealPeriod s \<and>
              rm_find (mRateMap s') (mIdealPeriod s)
                = Some \<lparr>slope = mIdealPeriod s, intercept = 0\<rparr>"
proof -
  note fr = insertTimestamp_frame [OF assms(2)]
  obtain t ts where ts: "mTimestamps s1 = t # ts"
    using fr(1) by (cases "mTimestamps s1") auto
  have fit: "fitModel s1 = Inr (False, rejectFit s1)"
    using assms(4-6) fr ts
    by (auto simp: fitModel_def Let_def min_element_Min kScalingFactor_def kMaxPercent_def)
  have "addVsyncTimestamp s timestamp = Inr (False, rejectFit s1)"
    using assms(1-3) fr fit by (simp add: addVsyncTimestamp_def)
  then show ?thesis
    using rejectFit_effect [of s1] fr by simp
qed

text \<open>
  Both causes occur: a first sample fitted alone has no ordinal spread, and a second
  sample 1400 ns before the first gives a slope of 1400 for an ideal period of 1000.
\<close>

theorem addVsyncTimestamp_fit_rejected_witness:
  "run halfRate (construct 1000 20 2 25) [AddVsyncTimestamp 5000] = Inr afterFirstSample \<and>
   (\<exists>s'. addVsyncTimestamp (construct 1000 20 1 25 :: unit VSyncPredictor) 0 = Inr (False, s') \<and>
         mTimestamps s' = [] \<and>
         rm_find (mRateMap s') 1000 = Some \<lparr>slope = 1000, intercept = 0\<rparr>) \<and>
   (\<exists>s'. addVsyncTimestamp afterFirstSample 3600 = Inr (False, s') \<and>
         mTimestamps s' = [] \<and>
         rm_find (mRateMap s') 1000 = Some \<lparr>slope = 1000, intercept = 0\<rparr>)"
proof -
  let ?a = "construct 1000 20 1 25 :: unit VSyncPredictor"
  let ?a1 = "?a\<lparr>mTimestamps := [0], mLastTimestampIndex := 0\<rparr>"
  let ?m = "\<lparr>slope = 1000, intercept = 0\<rparr>"
  have a: "validate ?a 0 = Inr True" "insertTimestamp ?a 0 = Inr ?a1"
    "kMinimumSamplesForPrediction ?a \<le> length (mTimestamps ?a1)"
    "rm_find (mRateMap ?a) (mIdealPeriod ?a) = Some ?m"
    "regression (slope ?m) (Min (set (mTimestamps ?a1))) (mTimestamps ?a1) = (0, 0, 0, 0)"
    by code_simp+
  have ap: "mIdealPeriod ?a = 1000"
    by code_simp
  have ad: "(0::int) = 0 \<or>
         (mIdealPeriod ?a \<noteq> 0 \<and>
          int (kOutlierTolerancePercent ?a)
            \<le> \<bar>0 * 1000 sdiv 0 - mIdealPeriod ?a\<bar> * 100 sdiv mIdealPeriod ?a)"
    by simp
  let ?b = afterFirstSample
  let ?b1 = "?b\<lparr>mTimestamps := [5000, 3600], mLastTimestampIndex := 1\<rparr>"
  have b: "validate ?b 3600 = Inr True" "insertTimestamp ?b 3600 = Inr ?b1"
    "kMinimumSamplesForPrediction ?b \<le> length (mTimestamps ?b1)"
    "rm_find (mRateMap ?b) (mIdealPeriod ?b) = Some ?m"
    "regression (slope ?m) (Min (set (mTimestamps ?b1))) (mTimestamps ?b1)
       = (700, 500, 700000, 500000)"
    by code_simp+
  have bp: "mIdealPeriod ?b = 1000" "kOutlierTolerancePercent ?b = 25"
    by (simp_all add: afterFirstSample_def)
  have bd: "(500000::int) = 0 \<or>
         (mIdealPeriod ?b \<noteq> 0 \<and>
          int (kOutlierTolerancePercent ?b)
            \<le> \<bar>700000 * 1000 sdiv 500000 - mIdealPeriod ?b\<bar> * 100 sdiv mIdealPeriod ?b)"
    by (simp add: bp)
  show ?thesis
    using addVsyncTimestamp_fit_rejected [OF a ad] ap
      addVsyncTimestamp_fit_rejected [OF b bd] bp afterFirstSample_reachable
    by auto
qed

section \<open>The warm-path prediction is never earlier than the time point\<close>

text \<open>
  Claim C1. In a state with a non-empty timestamp buffer whose model for the active
  ideal period has a positive slope, \<^verbatim>\<open>nextAnticipatedVSyncTimeFromLocked\<close> returns a
  value that is not earlier than the time point, for every time point: it neither
  divides by zero nor reaches the fatal \<^verbatim>\<open>prediction < timePoint\<close> branch. The same
  holds for the public \<^verbatim>\<open>nextAnticipatedVSyncTimeFrom\<close>, whatever the render rate, the
  divisor and the rounding of the sequence number are.
\<close>

theorem prediction_not_before_timePoint:
  assumes "mTimestamps s \<noteq> []"
    and "rm_find (mRateMap s) (mIdealPeriod s) = Some model"
    and "0 < slope model"
  shows "(\<exists>p. nextAnticipatedVSyncTimeFromLocked s timePoint = Inr p \<and> timePoint \<le> p) \<and>
         (\<exists>p s'. nextAnticipatedVSyncTimeFrom env s timePoint = Inr (p, s') \<and> timePoint \<le> p)"
proof -
  obtain p0 where p0: "nextAnticipatedVSyncTimeFromLocked s timePoint = Inr p0" "timePoint < p0"
    using locked_prediction [OF assms] by blast
  obtain vs where vs: "getVsyncSequenceLocked env s timePoint = Inr vs" "vsyncTime vs = p0"
    using getVsyncSequenceLocked_time [OF p0(1) assms(2)] by blast
  let ?s1 = "s\<lparr>mLastVsyncSequence := Some vs\<rparr>"
  let ?phase = "renderRatePhase env ?s1 vs"
  have s1: "mTimestamps ?s1 \<noteq> []" "rm_find (mRateMap ?s1) (mIdealPeriod ?s1) = Some model"
    using assms by simp_all
  have "\<exists>p. nextAnticipatedVSyncTimeFrom env s timePoint = Inr (p, ?s1) \<and> timePoint \<le> p"
  proof (cases "?phase = 0")
    case True
    then show ?thesis
      using vs p0 by (simp add: nextAnticipatedVSyncTimeFrom_def Let_def)
  next
    case False
    then have phase: "1 \<le> ?phase"
      using renderRatePhase_nonneg [of env ?s1 vs] by simp
    let ?tp = "p0 + slope model * ?phase - slope model sdiv 2"
    obtain p where p: "nextAnticipatedVSyncTimeFromLocked ?s1 ?tp = Inr p" "?tp < p"
      using locked_prediction [OF s1 assms(3)] by blast
    have "slope model \<le> slope model * ?phase"
      using assms(3) phase by simp
    moreover have "slope model sdiv 2 \<le> slope model"
      using assms(3) by (simp add: sdiv_nonneg_eq_div)
    ultimately have "p0 \<le> ?tp"
      by simp
    with p p0 have "timePoint \<le> p"
      by simp
    then show ?thesis
      using False vs p s1 by (simp add: nextAnticipatedVSyncTimeFrom_def Let_def
          getVSyncPredictionModelLocked_def)
  qed
  with p0 show ?thesis
    by (auto intro: less_imp_le)
qed

text \<open>
  In the example state the next vsync after 5500 is 6000. With a render rate of half the
  refresh rate and the vsync at 5000 as sequence number 0, the vsync at 6000 is out of
  phase and the prediction is 7000.
\<close>

theorem prediction_not_before_timePoint_witness:
  "nextAnticipatedVSyncTimeFromLocked converged 5500 = Inr 6000 \<and>
   (\<exists>p s'. nextAnticipatedVSyncTimeFrom halfRate converged 5500 = Inr (p, s') \<and> 5500 \<le> p) \<and>
   map_sum id fst
     (nextAnticipatedVSyncTimeFrom halfRate
        (converged\<lparr>mLastVsyncSequence := Some \<lparr>vsyncTime = 5000, seq = 0\<rparr>,
                   mRenderRate := Some ()\<rparr>) 5500) = Inr 7000"
proof -
  let ?r = "converged\<lparr>mLastVsyncSequence := Some \<lparr>vsyncTime = 5000, seq = 0\<rparr>,
                      mRenderRate := Some ()\<rparr>"
  have h: "mTimestamps converged \<noteq> []"
    "rm_find (mRateMap converged) (mIdealPeriod converged) = Some \<lparr>slope = 1000, intercept = 0\<rparr>"
    "0 < slope \<lparr>slope = 1000, intercept = 0\<rparr>"
    by (simp_all add: converged_def rm_find_def)
  have hr: "mTimestamps ?r \<noteq> []"
    "rm_find (mRateMap ?r) (mIdealPeriod ?r) = Some \<lparr>slope = 1000, intercept = 0\<rparr>"
    by (simp_all add: converged_def rm_find_def)
  have "nextAnticipatedVSyncTimeFromLocked converged 5500 = Inr 6000"
    by code_simp
  moreover have "map_sum id fst (nextAnticipatedVSyncTimeFrom halfRate ?r 5500) = Inr 7000"
    by code_simp
  ultimately show ?thesis
    using prediction_not_before_timePoint [OF h, of 5500 halfRate]
      prediction_not_before_timePoint [OF hr h(3), of 5500 halfRate]
    by simp
qed

section \<open>The ordinal of the warm-path prediction\<close>

text \<open>
  Claim C3, as amended. Let \<open>zeroPoint\<close> be the oldest buffered timestamp plus the
  intercept. On the warm path (non-empty buffer, positive slope), for a time point not
  earlier than \<open>zeroPoint - slope\<close>, the prediction is \<open>zeroPoint + ordinal * slope\<close>
  where \<open>ordinal\<close> is the smallest integer whose vsync lies strictly after the time
  point. In particular, when \<open>timePoint - zeroPoint\<close> is a multiple of the slope, the
  prediction is \<open>timePoint + slope\<close>, one period later, and not the time point itself.
\<close>

theorem prediction_is_next_vsync_after:
  assumes "mTimestamps s \<noteq> []"
    and "rm_find (mRateMap s) (mIdealPeriod s) = Some model"
    and "0 < slope model"
    and "zeroPoint = Min (set (mTimestamps s)) + intercept model"
    and "zeroPoint - slope model \<le> timePoint"
  shows "(\<exists>ordinal.
            nextAnticipatedVSyncTimeFromLocked s timePoint = Inr (zeroPoint + ordinal * slope model) \<and>
            timePoint < zeroPoint + ordinal * slope model \<and>
            (\<forall>k. timePoint < zeroPoint + k * slope model \<longrightarrow> ordinal \<le> k)) \<and>
         (slope model dvd timePoint - zeroPoint \<longrightarrow>
            nextAnticipatedVSyncTimeFromLocked s timePoint = Inr (timePoint + slope model))"
proof -
  let ?d = "slope model"
  let ?x = "timePoint - zeroPoint"
  have "(?x + ?d) sdiv ?d = (?x + ?d) div ?d"
    using assms(3,5) by (simp add: sdiv_nonneg_eq_div)
  also have "\<dots> = ?x div ?d + 1"
    using assms(3) div_add_self2 [of ?d ?x] by linarith
  finally have q: "(?x + ?d) sdiv ?d = ?x div ?d + 1" .
  have val: "nextAnticipatedVSyncTimeFromLocked s timePoint
               = Inr (zeroPoint + (?x div ?d + 1) * ?d)"
    using locked_prediction(1) [OF assms(1-3), of timePoint] q assms(4)
    by (simp add: algebra_simps)
  have gt: "timePoint < zeroPoint + (?x div ?d + 1) * ?d"
    using least_ordinal_after(1) [OF assms(3), of ?x] by simp
  have least: "?x div ?d + 1 \<le> k" if "timePoint < zeroPoint + k * ?d" for k
    using least_ordinal_after(2) [OF assms(3), of ?x k] that by simp
  have exact: "zeroPoint + (?x div ?d + 1) * ?d = timePoint + ?d" if "?d dvd ?x"
  proof -
    have "?x div ?d * ?d = ?x"
      using that by simp
    then show ?thesis
      by (simp add: algebra_simps)
  qed
  show ?thesis
    using val gt least exact by auto
qed

theorem prediction_is_next_vsync_after_witness:
  "Min (set (mTimestamps converged)) + 0 - 1000 \<le> 5000 \<and>
   1000 dvd 5000 - (Min (set (mTimestamps converged)) + 0) \<and>
   nextAnticipatedVSyncTimeFromLocked converged 5000 = Inr (5000 + 1000)"
proof -
  have h: "mTimestamps converged \<noteq> []"
    "rm_find (mRateMap converged) (mIdealPeriod converged) = Some \<lparr>slope = 1000, intercept = 0\<rparr>"
    "0 < slope \<lparr>slope = 1000, intercept = 0\<rparr>"
    by (simp_all add: converged_def rm_find_def)
  have z: "(0::int) = Min (set (mTimestamps converged)) + intercept \<lparr>slope = 1000, intercept = 0\<rparr>"
    by (simp add: converged_def)
  have r: "0 - slope \<lparr>slope = 1000, intercept = 0\<rparr> \<le> (5000::int)"
    by simp
  show ?thesis
    using prediction_is_next_vsync_after [OF h z r] z by simp
qed

text \<open>
  The claim as first stated fails in the example state, which six evenly spaced samples
  produce: the buffer starts at 0 and the model is \<open>(1000, 0)\<close>, so the zero point is 0.
  The time point 5000 is five whole periods after the zero point, yet the prediction is
  6000 and not 5000. The time point -2500 lies more than a period before the zero point:
  the ordinal -2 already gives a vsync (-2000) that is not earlier than the time point,
  yet the prediction is -1000, the vsync of the ordinal -1.
\<close>

theorem prediction_exact_multiple_counterexample:
  "run halfRate (construct 1000 20 6 25)
     (map AddVsyncTimestamp [0, 1000, 2000, 3000, 4000, 5000]) = Inr converged \<and>
   mTimestamps converged \<noteq> [] \<and>
   getVSyncPredictionModelLocked converged = Inr \<lparr>slope = 1000, intercept = 0\<rparr> \<and>
   Min (set (mTimestamps converged)) + 0 = 0 \<and>
   (5000::int) - 0 = 5 * 1000 \<and>
   nextAnticipatedVSyncTimeFromLocked converged 5000 = Inr 6000 \<and>
   nextAnticipatedVSyncTimeFromLocked converged 5000 \<noteq> Inr 5000 \<and>
   (- 2500 :: int) \<le> 0 + (- 2) * 1000 \<and>
   nextAnticipatedVSyncTimeFromLocked converged (- 2500) = Inr (0 + (- 1) * 1000)"
proof -
  have "nextAnticipatedVSyncTimeFromLocked converged 5000 = Inr 6000"
    by code_simp
  moreover have "nextAnticipatedVSyncTimeFromLocked converged (- 2500) = Inr (- 1000)"
    by code_simp
  moreover have "getVSyncPredictionModelLocked converged = Inr \<lparr>slope = 1000, intercept = 0\<rparr>"
    by code_simp
  ultimately show ?thesis
    using converged_reachable by (simp add: converged_def)
qed

section \<open>The residual test of validate\<close>

text \<open>
  Claim C4, as amended. In a state with a previously written sample (a non-empty buffer,
  a valid last index, a non-zero ideal period, a tolerance of at most 100), let
  \<open>percent\<close> be the residual \<^verbatim>\<open>(timestamp - lastTimestamp) % idealPeriod\<close> in percent of
  the ideal period. \<^verbatim>\<open>validate\<close> rejects the timestamp on the residual test exactly when
  \<open>tolerance \<le> percent \<le> 100 - tolerance\<close>, both bounds included: a percentage equal
  to either bound is rejected. Outside this closed band the verdict is the one of the
  duplicate test alone.
\<close>

theorem validate_residual_band:
  assumes "mTimestamps s = t # ts"
    and "0 \<le> mLastTimestampIndex s"
    and "nat (mLastTimestampIndex s) < length (t # ts)"
    and "mIdealPeriod s \<noteq> 0"
    and "kOutlierTolerancePercent s \<le> 100"
    and "percent = (timestamp - (t # ts) ! nat (mLastTimestampIndex s)) smod mIdealPeriod s * 100
                     sdiv mIdealPeriod s"
  shows "(int (kOutlierTolerancePercent s) \<le> percent \<and>
          percent \<le> 100 - int (kOutlierTolerancePercent s)
            \<longrightarrow> validate s timestamp = Inr False) \<and>
         (\<not> (int (kOutlierTolerancePercent s) \<le> percent \<and>
             percent \<le> 100 - int (kOutlierTolerancePercent s))
            \<longrightarrow> validate s timestamp =
                  Inr (int (kOutlierTolerancePercent s)
                         \<le> distancePercent (mIdealPeriod s) t ts timestamp))"
  using validate_verdict [OF assms(1-4), of timestamp] assms(6) sub_u32_percent [OF assms(5)]
  by (auto simp: residualPercent_def kMaxPercent_def)

theorem validate_residual_band_witness:
  "residualPercent 1000 5000 5500 = 50 \<and> validate converged 5500 = Inr False \<and>
   residualPercent 1000 5000 5760 = 76 \<and> validate converged 5760 = Inr True"
proof -
  have h: "mTimestamps converged = 0 # [1000, 2000, 3000, 4000, 5000]"
    "0 \<le> mLastTimestampIndex converged"
    "nat (mLastTimestampIndex converged) < length (0 # [1000, 2000, 3000, 4000, 5000 :: int])"
    "mIdealPeriod converged \<noteq> 0"
    "kOutlierTolerancePercent converged \<le> 100"
    by (simp_all add: converged_def)
  have p: "(50::int) = (5500 - (0 # [1000, 2000, 3000, 4000, 5000]) ! nat (mLastTimestampIndex converged))
                  smod mIdealPeriod converged * 100 sdiv mIdealPeriod converged"
    "(76::int) = (5760 - (0 # [1000, 2000, 3000, 4000, 5000]) ! nat (mLastTimestampIndex converged))
                  smod mIdealPeriod converged * 100 sdiv mIdealPeriod converged"
    by (simp_all add: converged_def)
  have d: "distancePercent 1000 0 [1000, 2000, 3000, 4000, 5000] 5760 = 76"
    by code_simp
  have r: "residualPercent 1000 5000 5500 = 50" "residualPercent 1000 5000 5760 = 76"
    by code_simp+
  show ?thesis
    using validate_residual_band [OF h p(1)] validate_residual_band [OF h p(2)] d r
    by (simp add: converged_def)
qed

text \<open>
  The claim as first stated fails in the example state, which six evenly spaced samples
  produce and whose tolerance is 25: the timestamps 5250 and 5750 have residuals of
  exactly 25 and 75 percent and are no duplicates (their distances to the nearest sample
  are 25 and 75 percent), yet \<^verbatim>\<open>validate\<close> rejects both.
\<close>

theorem validate_bounds_rejected_counterexample:
  "run halfRate (construct 1000 20 6 25)
     (map AddVsyncTimestamp [0, 1000, 2000, 3000, 4000, 5000]) = Inr converged \<and>
   kOutlierTolerancePercent converged = 25 \<and>
   residualPercent (mIdealPeriod converged) 5000 5250 = 25 \<and>
   distancePercent (mIdealPeriod converged) 0 [1000, 2000, 3000, 4000, 5000] 5250 = 25 \<and>
   validate converged 5250 = Inr False \<and>
   residualPercent (mIdealPeriod converged) 5000 5750 = 100 - 25 \<and>
   distancePercent (mIdealPeriod converged) 0 [1000, 2000, 3000, 4000, 5000] 5750 = 75 \<and>
   validate converged 5750 = Inr False"
proof -
  have "kOutlierTolerancePercent converged = 25"
    by (simp add: converged_def)
  moreover have "residualPercent (mIdealPeriod converged) 5000 5250 = 25"
    "residualPercent (mIdealPeriod converged) 5000 5750 = 100 - 25"
    by code_simp+
  moreover have
    "distancePercent (mIdealPeriod converged) 0 [1000, 2000, 3000, 4000, 5000] 5250 = 25"
    "distancePercent (mIdealPeriod converged) 0 [1000, 2000, 3000, 4000, 5000] 5750 = 75"
    by code_simp+
  moreover have "validate converged 5250 = Inr False" "validate converged 5750 = Inr False"
    by code_simp+
  ultimately show ?thesis
    using converged_reachable by simp
qed

section \<open>Timestamps earlier than the last written one\<close>

text \<open>
  Claim C10, as amended. In a state with a previously written sample, a positive ideal
  period and an outlier tolerance of at least 1 percent, a timestamp strictly earlier
  than the last written timestamp always passes the residual test: the truncating
  remainder of a negative difference is not positive, so the percentage is at most 0 and
  below the tolerance. Such a timestamp is rejected exactly when the duplicate test
  rejects it, that is, when its distance to the closest buffered timestamp, in percent of
  the ideal period, is below the tolerance.
\<close>

theorem validate_earlier_timestamp:
  assumes "mTimestamps s = t # ts"
    and "0 \<le> mLastTimestampIndex s"
    and "nat (mLastTimestampIndex s) < length (t # ts)"
    and "0 < mIdealPeriod s"
    and "0 < kOutlierTolerancePercent s"
    and "timestamp < (t # ts) ! nat (mLastTimestampIndex s)"
  shows "(timestamp - (t # ts) ! nat (mLastTimestampIndex s)) smod mIdealPeriod s * 100
            sdiv mIdealPeriod s \<le> 0 \<and>
         validate s timestamp =
           Inr (int (kOutlierTolerancePercent s)
                  \<le> Min ((\<lambda>a. \<bar>timestamp - a\<bar>) ` set (t # ts)) * 100 div mIdealPeriod s)"
proof -
  let ?last = "(t # ts) ! nat (mLastTimestampIndex s)"
  have "(timestamp - ?last) smod mIdealPeriod s \<le> 0"
    using assms(4,6) by (simp add: smod_int_compares(4))
  then have "(timestamp - ?last) smod mIdealPeriod s * 100 \<le> 0"
    by simp
  then have r: "(timestamp - ?last) smod mIdealPeriod s * 100 sdiv mIdealPeriod s \<le> 0"
    using assms(4) by (rule sdiv_nonpos_pos)
  have n: "mIdealPeriod s \<noteq> 0"
    using assms(4) by simp
  have "validate s timestamp =
          Inr (int (kOutlierTolerancePercent s) \<le> distancePercent (mIdealPeriod s) t ts timestamp)"
    using validate_verdict [OF assms(1-3) n, of timestamp] r assms(5)
    by (auto simp: residualPercent_def kMaxPercent_def)
  then show ?thesis
    using r distancePercent_Min [OF assms(4)] by simp
qed

theorem validate_earlier_timestamp_witness:
  "(4500::int) < 5000 \<and> validate converged 4500 = Inr True \<and>
   (4900::int) < 5000 \<and> validate converged 4900 = Inr False"
proof -
  have h: "mTimestamps converged = 0 # [1000, 2000, 3000, 4000, 5000]"
    "0 \<le> mLastTimestampIndex converged"
    "nat (mLastTimestampIndex converged) < length (0 # [1000, 2000, 3000, 4000, 5000 :: int])"
    "0 < mIdealPeriod converged"
    "0 < kOutlierTolerancePercent converged"
    by (simp_all add: converged_def)
  have e: "4500 < (0 # [1000, 2000, 3000, 4000, 5000 :: int]) ! nat (mLastTimestampIndex converged)"
    "4900 < (0 # [1000, 2000, 3000, 4000, 5000 :: int]) ! nat (mLastTimestampIndex converged)"
    by (simp_all add: converged_def)
  show ?thesis
    using validate_earlier_timestamp [OF h e(1)] validate_earlier_timestamp [OF h e(2)]
    by (simp add: converged_def)
qed

text \<open>
  The claim as first stated fails for a tolerance of 0, in the state a fresh instance is
  in after its first sample: the timestamp 4000 is one whole
  period earlier than the last sample 5000, its residual percentage is 0, which is not
  below the tolerance, and \<^verbatim>\<open>validate\<close> rejects it although the duplicate test (a
  distance of 100 percent) does not.
\<close>

theorem validate_earlier_timestamp_counterexample:
  "run halfRate (construct 1000 20 6 0) [AddVsyncTimestamp 5000] = Inr zeroTolerance \<and>
   kOutlierTolerancePercent zeroTolerance = 0 \<and>
   mTimestamps zeroTolerance = [5000] \<and> mLastTimestampIndex zeroTolerance = 0 \<and>
   (4000::int) < 5000 \<and>
   residualPercent (mIdealPeriod zeroTolerance) 5000 4000 = 0 \<and>
   distancePercent (mIdealPeriod zeroTolerance) 5000 [] 4000 = 100 \<and>
   validate zeroTolerance 4000 = Inr False"
proof -
  have "residualPercent (mIdealPeriod zeroTolerance) 5000 4000 = 0"
    "distancePercent (mIdealPeriod zeroTolerance) 5000 [] 4000 = 100"
    "validate zeroTolerance 4000 = Inr False"
    by code_simp+
  then show ?thesis
    using zeroTolerance_reachable by (simp add: zeroTolerance_def)
qed

section \<open>setPeriod evicts the oldest entry of a full rate map\<close>

text \<open>
  Claim C2. When the rate map holds 30 entries, \<^verbatim>\<open>setPeriod\<close> removes the entry that
  was inserted first (the head of the map) and then enters a trivial model for the new
  period last, unless the remaining entries already have one. In particular, after 31
  calls of \<^verbatim>\<open>setPeriod\<close> on a fresh instance, with periods that differ from one another
  and from the initial period, the rate map holds exactly the last 30 periods: neither
  the entry of the initial period nor the entry of the first call is present.
\<close>

theorem setPeriod_evicts_oldest:
  "(length (mRateMap (s :: 'fps VSyncPredictor)) = 30 \<longrightarrow>
      mRateMap (setPeriod s period) =
        (if rm_find (tl (mRateMap s)) period = None
         then tl (mRateMap s) @ [(period, \<lparr>slope = period, intercept = 0\<rparr>)]
         else tl (mRateMap s))) \<and>
   (distinct (p0 # ps) \<and> length ps = 31 \<longrightarrow>
      map fst (mRateMap (foldl setPeriod (construct p0 h m tol :: 'fps VSyncPredictor) ps)) = drop 2 (p0 # ps) \<and>
      rm_find (mRateMap (foldl setPeriod (construct p0 h m tol :: 'fps VSyncPredictor) ps)) p0 = None \<and>
      rm_find (mRateMap (foldl setPeriod (construct p0 h m tol :: 'fps VSyncPredictor) ps)) (hd ps) = None)"
proof (intro conjI impI)
  assume "length (mRateMap s) = 30"
  then show "mRateMap (setPeriod s period) =
        (if rm_find (tl (mRateMap s)) period = None
         then tl (mRateMap s) @ [(period, \<lparr>slope = period, intercept = 0\<rparr>)]
         else tl (mRateMap s))"
    by (auto simp: setPeriod_rateMap Let_def kSizeLimit_def trivialModel_def)
next
  let ?s = "foldl setPeriod (construct p0 h m tol :: 'fps VSyncPredictor) ps"
  assume a: "distinct (p0 # ps) \<and> length ps = 31"
  then have keys: "map fst (mRateMap ?s) = drop 2 (p0 # ps)"
    using keys_after_setPeriods [of p0 ps, where ?'fps = 'fps] by (simp add: numeral_2_eq_2)
  then show "map fst (mRateMap ?s) = drop 2 (p0 # ps)" .
  obtain p1 rest where ps: "ps = p1 # rest"
    using a by (cases ps) auto
  have gone: "p0 \<notin> set (drop 2 (p0 # ps))" "p1 \<notin> set (drop 2 (p0 # ps))"
    using a ps by (auto simp: numeral_2_eq_2 dest: in_set_dropD)
  have k: "fst ` set (mRateMap ?s) = set (drop 2 (p0 # ps))"
    using arg_cong [OF keys, of set] by simp
  show "rm_find (mRateMap ?s) p0 = None"
    using gone(1) k by (simp add: rm_find_None_iff)
  show "rm_find (mRateMap ?s) (hd ps) = None"
    using gone(2) k ps by (simp add: rm_find_None_iff)
qed

theorem setPeriod_evicts_oldest_witness:
  "length (mRateMap (foldl setPeriod (construct 1000 20 6 25 :: unit VSyncPredictor) [1..29])) = 30 \<and>
   rm_find (mRateMap (foldl setPeriod (construct 1000 20 6 25 :: unit VSyncPredictor) [1..29])) 1000
     = Some \<lparr>slope = 1000, intercept = 0\<rparr> \<and>
   rm_find (mRateMap (setPeriod (foldl setPeriod (construct 1000 20 6 25 :: unit VSyncPredictor) [1..29]) 30)) 1000
     = None \<and>
   distinct (1000 # [1..31]) \<and> length [1..31] = 31 \<and>
   rm_find (mRateMap (foldl setPeriod (construct 1000 20 6 25 :: unit VSyncPredictor) [1..31])) 1000 = None \<and>
   rm_find (mRateMap (foldl setPeriod (construct 1000 20 6 25 :: unit VSyncPredictor) [1..31])) 1 = None \<and>
   map fst (mRateMap (foldl setPeriod (construct 1000 20 6 25 :: unit VSyncPredictor) [1..31])) = [2..31]"
proof -
  let ?c = "construct 1000 20 6 25 :: unit VSyncPredictor"
  let ?s = "foldl setPeriod ?c [1..29]"
  have full: "length (mRateMap ?s) = 30"
    by code_simp
  have before: "rm_find (mRateMap ?s) 1000 = Some \<lparr>slope = 1000, intercept = 0\<rparr>"
    by code_simp
  have rest: "rm_find (tl (mRateMap ?s)) 30 = None" "rm_find (tl (mRateMap ?s)) 1000 = None"
    by code_simp+
  have periods: "distinct (1000 # [1..31])" "length [1..31] = 31"
    by code_simp+
  have hd: "hd [1..31] = 1" and dr: "drop 2 (1000 # [1..31]) = [2..31]"
    by code_simp+
  note t = setPeriod_evicts_oldest [of ?s 30 1000 "[1..31]" 20 6 25]
  have after: "rm_find (mRateMap (setPeriod ?s 30)) 1000 = None"
    using t full rest by (simp add: rm_find_def)
  show ?thesis
    using t full before after periods hd dr by simp
qed

section \<open>The rate map stays bounded and keeps the active period\<close>

text \<open>
  Claim C8. The invariant ``the rate map has at most 30 entries and holds an entry for
  the active ideal period'' holds after construction, is preserved by every public
  operation that returns (\<^verbatim>\<open>addVsyncTimestamp\<close>, \<^verbatim>\<open>setPeriod\<close>, \<^verbatim>\<open>resetModel\<close>,
  \<^verbatim>\<open>setRenderRate\<close> and the queries), and so holds after every sequence of calls on a
  fresh instance.
\<close>

theorem rateMap_invariant:
  "rateMapInvariant
     (construct idealPeriod historySize minimumSamples tolerance :: 'fps VSyncPredictor) \<and>
   (rateMapInvariant (s :: 'fps VSyncPredictor) \<and> perform env s c = Inr s'
      \<longrightarrow> rateMapInvariant s') \<and>
   (run env (construct idealPeriod historySize minimumSamples tolerance) cs = Inr s''
      \<longrightarrow> rateMapInvariant s'')"
proof (intro conjI impI)
  show "rateMapInvariant
          (construct idealPeriod historySize minimumSamples tolerance :: 'fps VSyncPredictor)"
    by (rule rateMapInvariant_construct)
  have step: "rateMapInvariant b" if "rateMapInvariant a" and "perform env a c = Inr b"
    for a b :: "'fps VSyncPredictor" and c
  proof (cases c)
    case (AddVsyncTimestamp t)
    with that show ?thesis
      by (cases "addVsyncTimestamp a t") (auto dest: rateMapInvariant_addVsyncTimestamp)
  next
    case (SetPeriod p)
    with that show ?thesis
      by (auto intro: rateMapInvariant_setPeriod)
  next
    case ResetModel
    with that show ?thesis
      by (auto intro: rateMapInvariant_resetModel)
  next
    case (NextAnticipatedVSyncTimeFrom t)
    with that show ?thesis
      by (cases "nextAnticipatedVSyncTimeFrom env a t")
         (auto dest: rateMapInvariant_nextAnticipatedVSyncTimeFrom)
  next
    case (IsVSyncInPhase t r)
    with that show ?thesis
      by (cases "isVSyncInPhase env a t r") (auto dest: rateMapInvariant_isVSyncInPhase)
  next
    case (SetRenderRate r)
    with that show ?thesis
      by (auto simp: setRenderRate_def rateMapInvariant_def)
  next
    case CurrentPeriod
    with that show ?thesis
      by (cases "currentPeriod a") auto
  next
    case GetVSyncPredictionModel
    with that show ?thesis
      by (cases "getVSyncPredictionModel a") auto
  next
    case NeedsMoreSamples
    with that show ?thesis by simp
  next
    case Dump
    with that show ?thesis by simp
  qed
  {
    assume "rateMapInvariant s \<and> perform env s c = Inr s'"
    then show "rateMapInvariant s'"
      using step by blast
  }
  have runs: "rateMapInvariant b" if "rateMapInvariant a" and "run env a cs = Inr b"
    for a b :: "'fps VSyncPredictor"
    using that
  proof (induction cs arbitrary: a)
    case Nil
    then show ?case by simp
  next
    case (Cons c cs)
    then show ?case
      by (cases "perform env a c") (auto dest: step)
  qed
  assume "run env (construct idealPeriod historySize minimumSamples tolerance) cs = Inr s''"
  then show "rateMapInvariant s''"
    using runs rateMapInvariant_construct by blast
qed

theorem rateMap_invariant_witness:
  "rateMapInvariant converged \<and>
   perform halfRate converged (AddVsyncTimestamp 6000)
     = Inr (converged\<lparr>mTimestamps := [0, 1000, 2000, 3000, 4000, 5000, 6000],
                      mLastTimestampIndex := 6\<rparr>) \<and>
   rateMapInvariant (converged\<lparr>mTimestamps := [0, 1000, 2000, 3000, 4000, 5000, 6000],
                                mLastTimestampIndex := 6\<rparr>) \<and>
   rateMapInvariant switched"
proof -
  have i: "rateMapInvariant converged"
    by code_simp
  have p: "perform halfRate converged (AddVsyncTimestamp 6000)
     = Inr (converged\<lparr>mTimestamps := [0, 1000, 2000, 3000, 4000, 5000, 6000],
                      mLastTimestampIndex := 6\<rparr>)"
    by code_simp
  show ?thesis
    using rateMap_invariant
      [of 1000 20 6 25 converged halfRate "AddVsyncTimestamp 6000"
          "converged\<lparr>mTimestamps := [0, 1000, 2000, 3000, 4000, 5000, 6000],
                     mLastTimestampIndex := 6\<rparr>"
          "map AddVsyncTimestamp [0, 1000, 2000, 3000, 4000, 5000] @
             [SetRenderRate (), NextAnticipatedVSyncTimeFrom 5500, IsVSyncInPhase 7000 (),
              CurrentPeriod, SetPeriod 2000, ResetModel]"
          switched]
      i p switched_reachable
    by simp
qed

end
